theory Spec2Isabelle
  imports Main "HOL-Library.AList"
begin

section \<open>The life tracker's WebSocket server (backend/server.js)\<close>

text \<open>
  The source file holds the mobile client, the README and two revisions of the server.
  The model below is the later revision of the server (the one that logs to the
  console, wraps the message handler in \<open>try/catch\<close> and carries the comment
  \<open>FIXED: Automatically reduce life by commander damage difference\<close>).

  JavaScript objects used as dictionaries (\<open>rooms\<close>, \<open>commanderDamage\<close>) are association
  lists: \<open>map_of\<close> reads a key, \<open>AList.update\<close> assigns one (in place when the key is
  there, at the end otherwise, as property order does) and \<open>AList.delete\<close> is \<open>delete\<close>.
  A parsed message has the fields of its \<open>type\<close> with the types of the protocol: ids,
  names and room codes are strings, \<open>life\<close> and \<open>damage\<close> are integers. The wall clock
  and the random number generator are inputs of every event. Calls of \<open>console.log\<close> are
  left out, and \<open>ws.send\<close> does not throw.
\<close>

subsection \<open>Numbers inside template strings\<close>

definition digitChar :: "nat \<Rightarrow> char" where
  "digitChar d = ''0123456789'' ! d"

function showNat :: "nat \<Rightarrow> string" where
  "showNat n = (if n < 10 then [digitChar n] else showNat (n div 10) @ [digitChar (n mod 10)])"
  by pat_completeness auto
termination
  by (relation "measure (\<lambda>n. n)") auto

declare showNat.simps [simp del]

definition showInt :: "int \<Rightarrow> string" where
  "showInt i = (if i < 0 then ''-'' @ showNat (nat (- i)) else showNat (nat i))"

text \<open>The arrow of the log messages (U+2192), as its three UTF-8 bytes.\<close>

definition arrow :: string where
  "arrow = [char_of (226 :: nat), char_of (134 :: nat), char_of (146 :: nat)]"

subsection \<open>Data model\<close>

record log_entry =
  time :: string
  message :: string

text \<open>
  A player object. \<open>player_state\<close> holds the fields that \<open>getGameState\<close> copies into the
  snapshot sent to clients; \<open>player\<close> adds the socket of the connection, \<open>ws\<close>, named by the
  number of that connection.
\<close>

record player_state =
  id_player :: string
  name :: string
  life :: int
  color :: string
  commanderDamage :: "(string \<times> int) list"

record player = player_state +
  ws :: nat

record room =
  players :: "player list"
  gameLog :: "log_entry list"

record gameState =
  players_gs :: "player_state list"
  gameLog_gs :: "log_entry list"

datatype server_msg =
    ROOM_CREATED string string "gameState option"
  | ROOM_JOINED string "gameState option"
  | GAME_UPDATE "gameState option"
  | ERROR string

datatype client_msg =
    CREATE_ROOM
  | JOIN_ROOM string
  | UPDATE_LIFE string int
  | UPDATE_COMMANDER_DAMAGE string string int
  | UPDATE_NAME string string
  | RESET_GAME
  | OTHER string

text \<open>
  \<open>UPDATE_COMMANDER_DAMAGE sourcePlayerId targetPlayerId damage\<close>, \<open>UPDATE_LIFE playerId life\<close>,
  \<open>UPDATE_NAME playerId name\<close>, \<open>JOIN_ROOM roomCode\<close>; \<open>OTHER\<close> is any other \<open>type\<close>.
  A text frame is either rejected by \<open>JSON.parse\<close> or parsed into such a message.
\<close>

datatype payload = Unparseable | Parsed client_msg

datatype js_error = SyntaxError | TypeError

datatype readyState = OPEN | CLOSED

text \<open>
  The variables each \<open>wss.on('connection')\<close> closure holds, with the state of its socket.
\<close>

record conn =
  playerId :: string
  currentRoomCode :: "string option"
  readyState :: readyState

text \<open>
  \<open>now\<close> is what \<open>new Date().toLocaleTimeString()\<close> returns during the event; \<open>draws\<close>
  are the successive values of \<open>Math.floor(Math.random() * chars.length)\<close>.
\<close>

record env =
  now :: string
  draws :: "nat list"

text \<open>
  The server: the registry \<open>rooms\<close>, \<open>playerIdCounter\<close>, the connections (numbered in
  the order they were accepted) and every message passed to \<open>ws.send\<close>, oldest first,
  with the socket it was sent on.
\<close>

record server =
  rooms :: "(string \<times> room) list"
  playerIdCounter :: nat
  conns :: "(nat \<times> conn) list"
  outbox :: "(nat \<times> server_msg) list"

datatype event = Connection | Message nat env payload | Close nat env

definition initial :: server where
  "initial = \<lparr>rooms = [], playerIdCounter = 1, conns = [], outbox = []\<rparr>"

subsection \<open>Constants and helpers\<close>

definition playerColors :: "string list" where
  "playerColors = [''#FF6B6B'', ''#4ECDC4'', ''#45B7D1'', ''#96CEB4'', ''#FECA57'', ''#DDA0DD'']"

definition chars :: string where
  "chars = ''ABCDEFGHIJKLMNOPQRSTUVWXYZ0123456789''"

text \<open>\<open>String.prototype.charAt\<close>: the empty string outside the string.\<close>

definition charAt :: "string \<Rightarrow> nat \<Rightarrow> string" where
  "charAt str i = (if i < length str then [str ! i] else [])"

text \<open>The loop of \<open>generateRoomCode\<close> runs six times, one draw each.\<close>

definition generateRoomCode :: "nat list \<Rightarrow> string" where
  "generateRoomCode ds = concat (map (charAt chars) (take 6 ds))"

text \<open>
  The names \<open>rooms\<close> inherits from \<open>Object.prototype\<close>: \<open>rooms[k]\<close> is truthy for them
  although no room is stored there, and has no \<open>players\<close>.
\<close>

definition objectPrototypeKeys :: "string list" where
  "objectPrototypeKeys = [''constructor'', ''__defineGetter__'', ''__defineSetter__'',
     ''hasOwnProperty'', ''__lookupGetter__'', ''__lookupSetter__'', ''isPrototypeOf'',
     ''propertyIsEnumerable'', ''toString'', ''valueOf'', ''__proto__'', ''toLocaleString'']"

definition isOpen :: "server \<Rightarrow> nat \<Rightarrow> bool" where
  "isOpen s w = (case map_of (conns s) w of None \<Rightarrow> False | Some c \<Rightarrow> readyState c = OPEN)"

definition send :: "nat \<Rightarrow> server_msg \<Rightarrow> server \<Rightarrow> server" where
  "send w m s = s\<lparr>outbox := outbox s @ [(w, m)]\<rparr>"

definition getGameState :: "server \<Rightarrow> string \<Rightarrow> gameState option" where
  "getGameState s roomCode =
     (case map_of (rooms s) roomCode of
        None \<Rightarrow> None
      | Some r \<Rightarrow> Some \<lparr>players_gs = map player_state.truncate (players r),
                        gameLog_gs = gameLog r\<rparr>)"

text \<open>One \<open>GAME_UPDATE\<close> to every player of the room whose socket is open, in list order.\<close>

definition broadcastGameState :: "string \<Rightarrow> server \<Rightarrow> server" where
  "broadcastGameState roomCode s =
     (case map_of (rooms s) roomCode of
        None \<Rightarrow> s
      | Some r \<Rightarrow>
          s\<lparr>outbox := outbox s @
               map (\<lambda>p. (ws p, GAME_UPDATE (getGameState s roomCode)))
                 (filter (\<lambda>p. isOpen s (ws p)) (players r))\<rparr>)"

definition putRoom :: "string \<Rightarrow> room \<Rightarrow> server \<Rightarrow> server" where
  "putRoom roomCode r s = s\<lparr>rooms := AList.update roomCode r (rooms s)\<rparr>"

text \<open>\<open>push\<close> onto the log, then \<open>shift\<close> when it holds more than 50 entries.\<close>

definition pushLog :: "log_entry \<Rightarrow> log_entry list \<Rightarrow> log_entry list" where
  "pushLog entry lg = (let lg' = lg @ [entry] in if length lg' > 50 then tl lg' else lg')"

definition addToLog :: "string \<Rightarrow> string \<Rightarrow> string \<Rightarrow> server \<Rightarrow> server" where
  "addToLog roomCode t msg s =
     (case map_of (rooms s) roomCode of
        None \<Rightarrow> s
      | Some r \<Rightarrow>
          putRoom roomCode (r\<lparr>gameLog := pushLog \<lparr>time = t, message = msg\<rparr> (gameLog r)\<rparr>) s)"

text \<open>
  The guard \<open>!currentRoomCode || !rooms[currentRoomCode]\<close>: \<open>null\<close> and the empty string
  are falsy. The result is the code and the room when the guard lets the handler go on.
  \<open>currentRoomCode\<close> only ever holds a generated code or a code that went through the
  tests of \<open>JOIN_ROOM\<close>, so \<open>rooms[currentRoomCode]\<close> is a stored room or \<open>undefined\<close>.
\<close>

definition currentRoom :: "server \<Rightarrow> conn \<Rightarrow> (string \<times> room) option" where
  "currentRoom s c =
     (case currentRoomCode c of
        None \<Rightarrow> None
      | Some code \<Rightarrow>
          if code = [] then None
          else (case map_of (rooms s) code of None \<Rightarrow> None | Some r \<Rightarrow> Some (code, r)))"

text \<open>
  \<open>players.find(p => p.id === i)\<close> returns the first player with that id, and the handler
  then assigns to its fields: the first match is replaced, the others stay.
\<close>

fun updateFound :: "string \<Rightarrow> (player \<Rightarrow> player) \<Rightarrow> player list \<Rightarrow> player list" where
  "updateFound i f [] = []"
| "updateFound i f (p # ps) = (if id_player p = i then f p # ps else p # updateFound i f ps)"

definition setCurrentRoomCode :: "nat \<Rightarrow> conn \<Rightarrow> string \<Rightarrow> server \<Rightarrow> server" where
  "setCurrentRoomCode w c roomCode s =
     s\<lparr>conns := AList.update w (c\<lparr>currentRoomCode := Some roomCode\<rparr>) (conns s)\<rparr>"

subsection \<open>The message handler\<close>

text \<open>
  \<open>UPDATE_COMMANDER_DAMAGE\<close> assigns to the target player: \<open>oldDamageOf\<close> is
  \<open>targetPlayer.commanderDamage[sourcePlayerId] || 0\<close>, and \<open>applyDamage\<close> stores the new
  damage and, when the difference is not zero, sets the life to
  \<open>Math.max(0, life - damageDifference)\<close>. The log message is built after the assignment,
  from the target's new life; no name changes meanwhile.
\<close>

definition oldDamageOf :: "player \<Rightarrow> string \<Rightarrow> int" where
  "oldDamageOf targetPlayer sourcePlayerId =
     (case map_of (commanderDamage targetPlayer) sourcePlayerId of
        None \<Rightarrow> 0
      | Some d \<Rightarrow> if d = 0 then 0 else d)"

definition applyDamage :: "string \<Rightarrow> int \<Rightarrow> player \<Rightarrow> player" where
  "applyDamage sourcePlayerId newDamage targetPlayer =
     (let oldDamage = oldDamageOf targetPlayer sourcePlayerId;
          damageDifference = newDamage - oldDamage;
          p1 = targetPlayer\<lparr>commanderDamage :=
                 AList.update sourcePlayerId newDamage (commanderDamage targetPlayer)\<rparr>
      in if damageDifference \<noteq> 0
         then p1\<lparr>life := max 0 (life p1 - damageDifference)\<rparr>
         else p1)"

definition damageLogMessage :: "string \<Rightarrow> player \<Rightarrow> int \<Rightarrow> int \<Rightarrow> string option" where
  "damageLogMessage sourceName targetPlayer damageDifference newDamage =
     (if damageDifference > 0 then
        Some (sourceName @ '' dealt '' @ showInt damageDifference @
              '' commander damage to '' @ name targetPlayer @
              '' (total: '' @ showInt newDamage @ '') - Life: '' @
              showInt (life targetPlayer + damageDifference) @ '' '' @ arrow @ '' '' @
              showInt (life targetPlayer))
      else if damageDifference < 0 then
        Some (sourceName @ '' removed '' @ showInt (abs damageDifference) @
              '' commander damage from '' @ name targetPlayer @
              '' (total: '' @ showInt newDamage @ '') - Life: '' @
              showInt (life targetPlayer - damageDifference) @ '' '' @ arrow @ '' '' @
              showInt (life targetPlayer))
      else None)"

text \<open>
  The body of the \<open>switch\<close>, for the connection \<open>w\<close> whose closure is \<open>c\<close>. \<open>Inl\<close> is an
  exception thrown inside the \<open>try\<close> block, \<open>Inr\<close> the state after \<open>break\<close> or \<open>return\<close>.
  In \<open>JOIN_ROOM\<close>, a code that names an inherited property passes the \<open>!rooms[joinCode]\<close>
  test and \<open>rooms[joinCode].players.length\<close> throws. \<open>playerColors[n]\<close> is read below the
  capacity test only, so \<open>n < 6\<close>.
\<close>

fun handleMessage :: "nat \<Rightarrow> conn \<Rightarrow> env \<Rightarrow> client_msg \<Rightarrow> server \<Rightarrow> js_error + server" where
  "handleMessage w c e CREATE_ROOM s =
     (let roomCode = generateRoomCode (draws e);
          creator = \<lparr>id_player = playerId c, name = ''Player 1'', life = 40,
                     color = playerColors ! 0, commanderDamage = [], ws = w\<rparr>;
          s1 = putRoom roomCode \<lparr>players = [creator], gameLog = []\<rparr> s;
          s2 = setCurrentRoomCode w c roomCode s1;
          s3 = send w (ROOM_CREATED roomCode (playerId c) (getGameState s2 roomCode)) s2
      in Inr (addToLog roomCode (now e) (name creator @ '' created the game'') s3))"
| "handleMessage w c e (JOIN_ROOM joinCode) s =
     (case map_of (rooms s) joinCode of
        None \<Rightarrow>
          if joinCode \<in> set objectPrototypeKeys then Inl TypeError
          else Inr (send w (ERROR ''Room not found'') s)
      | Some r \<Rightarrow>
          if length (players r) \<ge> 6 then Inr (send w (ERROR ''Room is full'') s)
          else
            (let newPlayer = \<lparr>id_player = playerId c,
                              name = ''Player '' @ showNat (length (players r) + 1),
                              life = 40, color = playerColors ! length (players r),
                              commanderDamage = [], ws = w\<rparr>;
                 s1 = putRoom joinCode (r\<lparr>players := players r @ [newPlayer]\<rparr>) s;
                 s2 = setCurrentRoomCode w c joinCode s1;
                 s3 = send w (ROOM_JOINED (playerId c) (getGameState s2 joinCode)) s2;
                 s4 = addToLog joinCode (now e) (name newPlayer @ '' joined the game'') s3
             in Inr (broadcastGameState joinCode s4)))"
| "handleMessage w c e (UPDATE_LIFE pid newLife) s =
     (case currentRoom s c of
        None \<Rightarrow> Inr s
      | Some (code, r) \<Rightarrow>
          (case find (\<lambda>p. id_player p = pid) (players r) of
             None \<Rightarrow> Inr s
           | Some player \<Rightarrow>
               (let oldLife = life player;
                    s1 = putRoom code
                           (r\<lparr>players := updateFound pid (\<lambda>p. p\<lparr>life := newLife\<rparr>) (players r)\<rparr>) s;
                    change = newLife - oldLife;
                    changeStr = (if change > 0 then ''+'' @ showInt change else showInt change);
                    s2 = addToLog code (now e)
                           (name player @ '': '' @ showInt oldLife @ '' '' @ arrow @ '' '' @
                            showInt newLife @ '' ('' @ changeStr @ '')'') s1
                in Inr (broadcastGameState code s2))))"
| "handleMessage w c e (UPDATE_COMMANDER_DAMAGE sourcePlayerId targetPlayerId damage) s =
     (case currentRoom s c of
        None \<Rightarrow> Inr s
      | Some (code, r) \<Rightarrow>
          (case find (\<lambda>p. id_player p = targetPlayerId) (players r) of
             None \<Rightarrow> Inr s
           | Some targetPlayer \<Rightarrow>
               (case find (\<lambda>p. id_player p = sourcePlayerId) (players r) of
                  None \<Rightarrow> Inr s
                | Some sourcePlayer \<Rightarrow>
                    (let damageDifference = damage - oldDamageOf targetPlayer sourcePlayerId;
                         ps = updateFound targetPlayerId (applyDamage sourcePlayerId damage)
                                (players r);
                         s1 = putRoom code (r\<lparr>players := ps\<rparr>) s;
                         s2 = (case damageLogMessage (name sourcePlayer)
                                      (applyDamage sourcePlayerId damage targetPlayer)
                                      damageDifference damage of
                                 None \<Rightarrow> s1
                               | Some msg \<Rightarrow> addToLog code (now e) msg s1)
                     in Inr (broadcastGameState code s2)))))"
| "handleMessage w c e (UPDATE_NAME pid newName) s =
     (case currentRoom s c of
        None \<Rightarrow> Inr s
      | Some (code, r) \<Rightarrow>
          (case find (\<lambda>p. id_player p = pid) (players r) of
             None \<Rightarrow> Inr s
           | Some playerToRename \<Rightarrow>
               (let oldName = name playerToRename;
                    s1 = putRoom code
                           (r\<lparr>players := updateFound pid (\<lambda>p. p\<lparr>name := newName\<rparr>) (players r)\<rparr>) s;
                    s2 = addToLog code (now e) (oldName @ '' changed name to '' @ newName) s1
                in Inr (broadcastGameState code s2))))"
| "handleMessage w c e RESET_GAME s =
     (case currentRoom s c of
        None \<Rightarrow> Inr s
      | Some (code, r) \<Rightarrow>
          (let s1 = putRoom code
                      \<lparr>players = map (\<lambda>p. p\<lparr>life := 40, commanderDamage := []\<rparr>) (players r),
                       gameLog = []\<rparr> s;
               s2 = addToLog code (now e) ''Game reset'' s1
           in Inr (broadcastGameState code s2)))"
| "handleMessage w c e (OTHER t) s = Inr s"

text \<open>
  The \<open>try/catch\<close> around the handler: whatever is thrown becomes one \<open>ERROR\<close> reply. No
  branch of \<open>handleMessage\<close> changes the state before it throws.
\<close>

definition onMessage :: "nat \<Rightarrow> conn \<Rightarrow> env \<Rightarrow> payload \<Rightarrow> server \<Rightarrow> server" where
  "onMessage w c e raw s =
     (case (case raw of Unparseable \<Rightarrow> Inl SyntaxError | Parsed data \<Rightarrow> handleMessage w c e data s) of
        Inr s' \<Rightarrow> s'
      | Inl err \<Rightarrow> send w (ERROR ''Invalid message format'') s)"

subsection \<open>The close handler\<close>

definition onClose :: "nat \<Rightarrow> conn \<Rightarrow> env \<Rightarrow> server \<Rightarrow> server" where
  "onClose w c e s =
     (case currentRoom s c of
        None \<Rightarrow> s
      | Some (code, r) \<Rightarrow>
          (let playerName = (case find (\<lambda>p. id_player p = playerId c) (players r) of
                               None \<Rightarrow> playerId c
                             | Some disconnectedPlayer \<Rightarrow> name disconnectedPlayer);
               r' = r\<lparr>players := filter (\<lambda>p. id_player p \<noteq> playerId c) (players r)\<rparr>;
               s1 = putRoom code r' s
           in if length (players r') = 0
              then s1\<lparr>rooms := AList.delete code (rooms s1)\<rparr>
              else broadcastGameState code
                     (addToLog code (now e) (playerName @ '' left the game'') s1)))"

subsection \<open>Events\<close>

text \<open>
  A new connection takes the counter's value as its number and \<open>player<n>\<close> as its id. A
  message or a close event is delivered on an open socket only; a closed socket stays in
  \<open>conns\<close>, since player objects may still point to it.
\<close>

fun step :: "server \<Rightarrow> event \<Rightarrow> server" where
  "step s Connection =
     s\<lparr>conns := AList.update (playerIdCounter s)
                  \<lparr>playerId = ''player'' @ showNat (playerIdCounter s),
                   currentRoomCode = None, readyState = OPEN\<rparr> (conns s),
       playerIdCounter := playerIdCounter s + 1\<rparr>"
| "step s (Message w e raw) =
     (case map_of (conns s) w of
        None \<Rightarrow> s
      | Some c \<Rightarrow> if readyState c = OPEN then onMessage w c e raw s else s)"
| "step s (Close w e) =
     (case map_of (conns s) w of
        None \<Rightarrow> s
      | Some c \<Rightarrow>
          if readyState c = OPEN
          then onClose w c e (s\<lparr>conns := AList.update w (c\<lparr>readyState := CLOSED\<rparr>) (conns s)\<rparr>)
          else s)"

definition run :: "server \<Rightarrow> event list \<Rightarrow> server" where
  "run s evs = foldl step s evs"

subsection \<open>The earlier revision\<close>

text \<open>
  The earlier revision of the server, in the same source file, has the same \<open>switch\<close>
  but for two things: \<open>UPDATE_COMMANDER_DAMAGE\<close> stores the damage, logs it and leaves the
  life alone, and there is no \<open>try/catch\<close>, so that an exception leaves the handler
  (the result \<open>Inl\<close>). Its close handler removes the player and the empty room in the same
  way and writes no log entry. The properties below are about the later revision; two
  lemmas at the end record what the earlier one does instead.
\<close>

definition storeDamageV1 :: "string \<Rightarrow> int \<Rightarrow> player \<Rightarrow> player" where
  "storeDamageV1 sourcePlayerId damage targetPlayer =
     targetPlayer\<lparr>commanderDamage :=
       AList.update sourcePlayerId damage (commanderDamage targetPlayer)\<rparr>"

fun handleMessageV1 :: "nat \<Rightarrow> conn \<Rightarrow> env \<Rightarrow> client_msg \<Rightarrow> server \<Rightarrow> js_error + server" where
  "handleMessageV1 w c e (UPDATE_COMMANDER_DAMAGE sourcePlayerId targetPlayerId damage) s =
     (case currentRoom s c of
        None \<Rightarrow> Inr s
      | Some (code, r) \<Rightarrow>
          (case find (\<lambda>p. id_player p = targetPlayerId) (players r) of
             None \<Rightarrow> Inr s
           | Some targetPlayer \<Rightarrow>
               (case find (\<lambda>p. id_player p = sourcePlayerId) (players r) of
                  None \<Rightarrow> Inr s
                | Some sourcePlayer \<Rightarrow>
                    (let ps = updateFound targetPlayerId (storeDamageV1 sourcePlayerId damage)
                                (players r);
                         s1 = putRoom code (r\<lparr>players := ps\<rparr>) s;
                         s2 = addToLog code (now e)
                                (name sourcePlayer @ '' dealt '' @ showInt damage @
                                 '' commander damage to '' @ name targetPlayer) s1
                     in Inr (broadcastGameState code s2)))))"
| "handleMessageV1 w c e msg s = handleMessage w c e msg s"

definition onMessageV1 :: "nat \<Rightarrow> conn \<Rightarrow> env \<Rightarrow> payload \<Rightarrow> server \<Rightarrow> js_error + server" where
  "onMessageV1 w c e raw s =
     (case raw of Unparseable \<Rightarrow> Inl SyntaxError | Parsed data \<Rightarrow> handleMessageV1 w c e data s)"

section \<open>Vocabulary of the properties\<close>

text \<open>
  \<open>allRooms P s\<close>: every room of the registry, with its code, satisfies \<open>P\<close>. An event keeps
  such a property when each assignment the handlers make to a room does: creating a
  room, appending a player, changing the player found by its id, resetting, filtering
  out a player and appending to the log.
\<close>

definition allRooms :: "(string \<Rightarrow> room \<Rightarrow> bool) \<Rightarrow> server \<Rightarrow> bool" where
  "allRooms P s = (\<forall>code r. map_of (rooms s) code = Some r \<longrightarrow> P code r)"

text \<open>
  Sample inputs. With the draws \<open>0, 1, 2, 3, 4, 5\<close> the generated room code is
  \<open>ABCDEF\<close>. In \<open>fullRoomTrace\<close> seven clients connect, the first creates a room and the
  next five join it.
\<close>

definition sampleEnv :: env where
  "sampleEnv = \<lparr>now = ''1:23:45 PM'', draws = [0, 1, 2, 3, 4, 5]\<rparr>"

definition fullRoomTrace :: "event list" where
  "fullRoomTrace =
     [Connection, Connection, Connection, Connection, Connection, Connection, Connection,
      Message 1 sampleEnv (Parsed CREATE_ROOM),
      Message 2 sampleEnv (Parsed (JOIN_ROOM ''ABCDEF'')),
      Message 3 sampleEnv (Parsed (JOIN_ROOM ''ABCDEF'')),
      Message 4 sampleEnv (Parsed (JOIN_ROOM ''ABCDEF'')),
      Message 5 sampleEnv (Parsed (JOIN_ROOM ''ABCDEF'')),
      Message 6 sampleEnv (Parsed (JOIN_ROOM ''ABCDEF''))]"

text \<open>
  \<open>appendAll\<close> calls \<open>addToLog\<close> once for each (time, message) pair, in order;
  \<open>entryOf\<close> is the record \<open>addToLog\<close> pushes. \<open>sampleAppends\<close> are 51 appends with
  different messages.
\<close>

definition appendAll :: "string \<Rightarrow> (string \<times> string) list \<Rightarrow> server \<Rightarrow> server" where
  "appendAll roomCode tms s = fold (\<lambda>(t, msg). addToLog roomCode t msg) tms s"

definition entryOf :: "string \<times> string \<Rightarrow> log_entry" where
  "entryOf tm = \<lparr>time = fst tm, message = snd tm\<rparr>"

definition sampleAppends :: "(string \<times> string) list" where
  "sampleAppends = map (\<lambda>n. (''1:23:45 PM'', ''entry '' @ showNat n)) [1..<52]"


fun damageFieldNonneg :: "event \<Rightarrow> bool" where
  "damageFieldNonneg (Message w en (Parsed (UPDATE_COMMANDER_DAMAGE src tgt damage))) = (0 \<le> damage)"
| "damageFieldNonneg e = True"

definition gameTrace :: "event list" where
  "gameTrace =
     [Connection, Connection,
      Message 1 sampleEnv (Parsed CREATE_ROOM),
      Message 2 sampleEnv (Parsed (JOIN_ROOM ''ABCDEF'')),
      Message 1 sampleEnv (Parsed (UPDATE_LIFE ''player1'' 35)),
      Message 1 sampleEnv (Parsed (UPDATE_COMMANDER_DAMAGE ''player1'' ''player2'' 3))]"

definition livesNonneg :: "room \<Rightarrow> bool" where
  "livesNonneg r = list_all (\<lambda>p. 0 \<le> life p) (players r)"

definition damagesNonneg :: "room \<Rightarrow> bool" where
  "damagesNonneg r = list_all (\<lambda>p. list_all (\<lambda>kv. 0 \<le> snd kv) (commanderDamage p)) (players r)"

text \<open>
  \<open>inSendersRoom s w pid\<close>: the connection \<open>w\<close> passes the room guard and \<open>find\<close> returns
  a player for \<open>pid\<close> in its room. \<open>broadcastMsgs\<close> are the messages one
  \<open>broadcastGameState\<close> sends.
\<close>

definition inSendersRoom :: "server \<Rightarrow> nat \<Rightarrow> string \<Rightarrow> bool" where
  "inSendersRoom s w pid =
     (case map_of (conns s) w of
        None \<Rightarrow> False
      | Some c \<Rightarrow>
          (case currentRoom s c of
             None \<Rightarrow> False
           | Some (code, r) \<Rightarrow> find (\<lambda>p. id_player p = pid) (players r) \<noteq> None))"

definition broadcastMsgs :: "string \<Rightarrow> server \<Rightarrow> (nat \<times> server_msg) list" where
  "broadcastMsgs code s =
     (case map_of (rooms s) code of None \<Rightarrow> []
      | Some r \<Rightarrow> map (\<lambda>p. (ws p, GAME_UPDATE (getGameState s code)))
                    (filter (\<lambda>p. isOpen s (ws p)) (players r)))"

text \<open>
  \<open>notCreating code e\<close>: the event is not a \<open>CREATE_ROOM\<close> whose generated code is
  \<open>code\<close>. In \<open>twoPlayersTrace\<close> three clients connect, the first creates a room and the
  second joins it.
\<close>

fun notCreating :: "string \<Rightarrow> event \<Rightarrow> bool" where
  "notCreating code (Message w en (Parsed CREATE_ROOM)) = (generateRoomCode (draws en) \<noteq> code)"
| "notCreating code e = True"

definition twoPlayersTrace :: "event list" where
  "twoPlayersTrace =
     [Connection, Connection, Connection,
      Message 1 sampleEnv (Parsed CREATE_ROOM),
      Message 2 sampleEnv (Parsed (JOIN_ROOM ''ABCDEF''))]"

text \<open>
  \<open>listed s pid\<close>: some room's player list holds a player with id \<open>pid\<close>. An event
  \<open>entersWhenFree\<close> when it is not a \<open>CREATE_ROOM\<close> or \<open>JOIN_ROOM\<close> from a connection whose
  player id is listed already; a sequence of events is \<open>guarded\<close> from a state when each
  of its events enters when free, in the state it arrives in. The server does not check
  this: the client offers "create" and "join" only while it is in no game.

  For the proofs: \<open>idsOf\<close> are the ids of a room's players, \<open>wasListed s code i\<close> says that
  \<open>i\<close> is among them in the room \<open>code\<close> of \<open>s\<close>, \<open>enters s e code i\<close> that the event \<open>e\<close> is a
  \<open>CREATE_ROOM\<close> or \<open>JOIN_ROOM\<close> that puts the id \<open>i\<close> into the room \<open>code\<close>, and
  \<open>oneRoomPerId\<close> that no id is in two rooms.
\<close>

definition listed :: "server \<Rightarrow> string \<Rightarrow> bool" where
  "listed s pid = list_ex (\<lambda>cr. list_ex (\<lambda>p. id_player p = pid) (players (snd cr))) (rooms s)"

definition senderFree :: "server \<Rightarrow> nat \<Rightarrow> bool" where
  "senderFree s w = (case map_of (conns s) w of None \<Rightarrow> True | Some c \<Rightarrow> \<not> listed s (playerId c))"

fun entersWhenFree :: "server \<Rightarrow> event \<Rightarrow> bool" where
  "entersWhenFree s (Message w en (Parsed CREATE_ROOM)) = senderFree s w"
| "entersWhenFree s (Message w en (Parsed (JOIN_ROOM joinCode))) = senderFree s w"
| "entersWhenFree s e = True"

fun guarded :: "server \<Rightarrow> event list \<Rightarrow> bool" where
  "guarded s [] = True"
| "guarded s (e # evs) = (entersWhenFree s e \<and> guarded (step s e) evs)"

definition sampleEnv2 :: env where
  "sampleEnv2 = \<lparr>now = ''1:24:00 PM'', draws = [6, 7, 8, 9, 10, 11]\<rparr>"

definition idsOf :: "room \<Rightarrow> string set" where
  "idsOf r = set (map id_player (players r))"

definition wasListed :: "server \<Rightarrow> string \<Rightarrow> string \<Rightarrow> bool" where
  "wasListed s code i = (\<exists>r. map_of (rooms s) code = Some r \<and> i \<in> idsOf r)"

definition enters :: "server \<Rightarrow> event \<Rightarrow> string \<Rightarrow> string \<Rightarrow> bool" where
  "enters s e code i =
     (\<exists>w en c. map_of (conns s) w = Some c \<and> i = playerId c \<and>
        (e = Message w en (Parsed CREATE_ROOM) \<and> code = generateRoomCode (draws en) \<or>
         e = Message w en (Parsed (JOIN_ROOM code))))"

definition oneRoomPerId :: "server \<Rightarrow> bool" where
  "oneRoomPerId s =
     (\<forall>c1 c2 r1 r2 i. map_of (rooms s) c1 = Some r1 \<and> map_of (rooms s) c2 = Some r2 \<and>
        i \<in> idsOf r1 \<and> i \<in> idsOf r2 \<longrightarrow> c1 = c2)"

section \<open>Basic facts about the helpers\<close>

lemma rooms_send [simp]: "rooms (send w m s) = rooms s"
  and conns_send [simp]: "conns (send w m s) = conns s"
  and counter_send [simp]: "playerIdCounter (send w m s) = playerIdCounter s"
  and outbox_send [simp]: "outbox (send w m s) = outbox s @ [(w, m)]"
  by (simp_all add: send_def)

lemma rooms_broadcastGameState [simp]: "rooms (broadcastGameState code s) = rooms s"
  and conns_broadcastGameState [simp]: "conns (broadcastGameState code s) = conns s"
  and counter_broadcastGameState [simp]:
    "playerIdCounter (broadcastGameState code s) = playerIdCounter s"
  by (simp_all add: broadcastGameState_def split: option.split)

lemma rooms_putRoom [simp]: "rooms (putRoom code r s) = AList.update code r (rooms s)"
  and conns_putRoom [simp]: "conns (putRoom code r s) = conns s"
  and counter_putRoom [simp]: "playerIdCounter (putRoom code r s) = playerIdCounter s"
  and outbox_putRoom [simp]: "outbox (putRoom code r s) = outbox s"
  by (simp_all add: putRoom_def)

lemma rooms_setCurrentRoomCode [simp]: "rooms (setCurrentRoomCode w c code s) = rooms s"
  and counter_setCurrentRoomCode [simp]:
    "playerIdCounter (setCurrentRoomCode w c code s) = playerIdCounter s"
  and outbox_setCurrentRoomCode [simp]: "outbox (setCurrentRoomCode w c code s) = outbox s"
  by (simp_all add: setCurrentRoomCode_def)

lemma conns_addToLog [simp]: "conns (addToLog code t m s) = conns s"
  and counter_addToLog [simp]: "playerIdCounter (addToLog code t m s) = playerIdCounter s"
  and outbox_addToLog [simp]: "outbox (addToLog code t m s) = outbox s"
  by (simp_all add: addToLog_def split: option.split)

lemma map_of_rooms_addToLog:
  "map_of (rooms (addToLog code t m s)) =
     (case map_of (rooms s) code of
        None \<Rightarrow> map_of (rooms s)
      | Some r \<Rightarrow> (map_of (rooms s))(code \<mapsto>
          r\<lparr>gameLog := pushLog \<lparr>time = t, message = m\<rparr> (gameLog r)\<rparr>))"
  by (simp add: addToLog_def update_conv' split: option.split)

lemma currentRoom_SomeD:
  "currentRoom s c = Some (code, r) \<Longrightarrow>
     currentRoomCode c = Some code \<and> code \<noteq> [] \<and> map_of (rooms s) code = Some r"
  by (auto simp: currentRoom_def split: option.splits if_splits)

lemma length_updateFound [simp]: "length (updateFound i f ps) = length ps"
  by (induction ps) auto

lemma run_Nil [simp]: "run s [] = s"
  and run_Cons [simp]: "run s (e # evs) = run (step s e) evs"
  by (simp_all add: run_def)

section \<open>Properties that every room keeps\<close>

lemma allRooms_putRoom: "allRooms P s \<Longrightarrow> P code r \<Longrightarrow> allRooms P (putRoom code r s)"
  by (auto simp: allRooms_def update_conv')

lemma allRooms_addToLog:
  "allRooms P s \<Longrightarrow>
   (\<And>r en. P code r \<Longrightarrow> P code (r\<lparr>gameLog := pushLog en (gameLog r)\<rparr>)) \<Longrightarrow>
     allRooms P (addToLog code t m s)"
  by (auto simp: allRooms_def map_of_rooms_addToLog split: option.splits if_splits)

lemma allRooms_delete_update:
  "allRooms P s \<Longrightarrow>
     allRooms P (s'\<lparr>rooms := AList.delete code (AList.update code r (rooms s))\<rparr>)"
  by (auto simp: allRooms_def delete_conv' delete_update_same split: if_splits)

lemma allRooms_broadcastGameState [simp]:
    "allRooms P (broadcastGameState code s) = allRooms P s"
  and allRooms_send [simp]: "allRooms P (send w m s) = allRooms P s"
  and allRooms_setCurrentRoomCode [simp]:
    "allRooms P (setCurrentRoomCode w c code s) = allRooms P s"
  and allRooms_conns_update [simp]: "allRooms P (s\<lparr>conns := cs\<rparr>) = allRooms P s"
  by (simp_all add: allRooms_def)

lemma handleMessage_allRooms:
  assumes inv: "allRooms P s"
    and res: "handleMessage w c e msg s = Inr s'"
    and create: "\<And>pl. msg = CREATE_ROOM \<Longrightarrow> id_player pl = playerId c \<Longrightarrow> life pl = 40 \<Longrightarrow>
        commanderDamage pl = [] \<Longrightarrow>
        P (generateRoomCode (draws e)) \<lparr>players = [pl], gameLog = []\<rparr>"
    and join: "\<And>code r pl. msg = JOIN_ROOM code \<Longrightarrow> map_of (rooms s) code = Some r \<Longrightarrow>
        P code r \<Longrightarrow> length (players r) < 6 \<Longrightarrow> id_player pl = playerId c \<Longrightarrow> life pl = 40 \<Longrightarrow>
        commanderDamage pl = [] \<Longrightarrow> P code (r\<lparr>players := players r @ [pl]\<rparr>)"
    and lifeU: "\<And>code r pid l. msg = UPDATE_LIFE pid l \<Longrightarrow> P code r \<Longrightarrow>
        P code (r\<lparr>players := updateFound pid (\<lambda>p. p\<lparr>life := l\<rparr>) (players r)\<rparr>)"
    and dmg: "\<And>code r src tgt d. msg = UPDATE_COMMANDER_DAMAGE src tgt d \<Longrightarrow> P code r \<Longrightarrow>
        P code (r\<lparr>players := updateFound tgt (applyDamage src d) (players r)\<rparr>)"
    and nm: "\<And>code r pid n. P code r \<Longrightarrow>
        P code (r\<lparr>players := updateFound pid (\<lambda>p. p\<lparr>name := n\<rparr>) (players r)\<rparr>)"
    and reset: "\<And>code r. P code r \<Longrightarrow>
        P code \<lparr>players = map (\<lambda>p. p\<lparr>life := 40, commanderDamage := []\<rparr>) (players r),
                gameLog = []\<rparr>"
    and log: "\<And>code r en. P code r \<Longrightarrow> P code (r\<lparr>gameLog := pushLog en (gameLog r)\<rparr>)"
  shows "allRooms P s'"
proof -
  have old: "\<And>code r. map_of (rooms s) code = Some r \<Longrightarrow> P code r"
    using inv by (simp add: allRooms_def)
  show ?thesis
  proof (cases msg)
    case CREATE_ROOM
    then show ?thesis using res inv
      by (auto simp: Let_def intro!: allRooms_addToLog allRooms_putRoom create log)
  next
    case (JOIN_ROOM code)
    then show ?thesis using res inv
      by (auto simp: Let_def old split: option.splits if_splits
          intro!: allRooms_addToLog allRooms_putRoom join log)
  next
    case (UPDATE_LIFE pid l)
    then show ?thesis using res inv
      by (auto simp: Let_def old split: option.splits if_splits
          intro!: allRooms_addToLog allRooms_putRoom lifeU log dest!: currentRoom_SomeD)
  next
    case (UPDATE_COMMANDER_DAMAGE src tgt d)
    then show ?thesis using res inv
      by (auto simp: Let_def old split: option.splits if_splits
          intro!: allRooms_addToLog allRooms_putRoom dmg log dest!: currentRoom_SomeD)
  next
    case (UPDATE_NAME pid n)
    then show ?thesis using res inv
      by (auto simp: Let_def old split: option.splits if_splits
          intro!: allRooms_addToLog allRooms_putRoom nm log dest!: currentRoom_SomeD)
  next
    case RESET_GAME
    then show ?thesis using res inv
      by (auto simp: Let_def old split: option.splits if_splits
          intro!: allRooms_addToLog allRooms_putRoom reset log dest!: currentRoom_SomeD)
  next
    case (OTHER t)
    then show ?thesis using res inv by simp
  qed
qed

lemma onClose_allRooms:
  assumes inv: "allRooms P s"
    and leave: "\<And>code r. P code r \<Longrightarrow>
        P code (r\<lparr>players := filter (\<lambda>p. id_player p \<noteq> playerId c) (players r)\<rparr>)"
    and log: "\<And>code r en. P code r \<Longrightarrow> P code (r\<lparr>gameLog := pushLog en (gameLog r)\<rparr>)"
  shows "allRooms P (onClose w c e s)"
proof -
  have old: "\<And>code r. map_of (rooms s) code = Some r \<Longrightarrow> P code r"
    using inv by (simp add: allRooms_def)
  show ?thesis using inv
    by (auto simp: onClose_def Let_def old split: option.splits
        intro!: allRooms_addToLog allRooms_putRoom allRooms_delete_update leave log
        dest!: currentRoom_SomeD)
qed

lemma step_allRooms:
  assumes inv: "allRooms P s"
    and create: "\<And>w en c pl. e = Message w en (Parsed CREATE_ROOM) \<Longrightarrow>
        map_of (conns s) w = Some c \<Longrightarrow> id_player pl = playerId c \<Longrightarrow> life pl = 40 \<Longrightarrow>
        commanderDamage pl = [] \<Longrightarrow>
        P (generateRoomCode (draws en)) \<lparr>players = [pl], gameLog = []\<rparr>"
    and join: "\<And>w en c code r pl. e = Message w en (Parsed (JOIN_ROOM code)) \<Longrightarrow>
        map_of (conns s) w = Some c \<Longrightarrow> map_of (rooms s) code = Some r \<Longrightarrow>
        P code r \<Longrightarrow> length (players r) < 6 \<Longrightarrow> id_player pl = playerId c \<Longrightarrow> life pl = 40 \<Longrightarrow>
        commanderDamage pl = [] \<Longrightarrow> P code (r\<lparr>players := players r @ [pl]\<rparr>)"
    and lifeU: "\<And>w en code r pid l. e = Message w en (Parsed (UPDATE_LIFE pid l)) \<Longrightarrow>
        P code r \<Longrightarrow>
        P code (r\<lparr>players := updateFound pid (\<lambda>p. p\<lparr>life := l\<rparr>) (players r)\<rparr>)"
    and dmg: "\<And>w en code r src tgt d.
        e = Message w en (Parsed (UPDATE_COMMANDER_DAMAGE src tgt d)) \<Longrightarrow> P code r \<Longrightarrow>
        P code (r\<lparr>players := updateFound tgt (applyDamage src d) (players r)\<rparr>)"
    and nm: "\<And>code r pid n. P code r \<Longrightarrow>
        P code (r\<lparr>players := updateFound pid (\<lambda>p. p\<lparr>name := n\<rparr>) (players r)\<rparr>)"
    and reset: "\<And>code r. P code r \<Longrightarrow>
        P code \<lparr>players = map (\<lambda>p. p\<lparr>life := 40, commanderDamage := []\<rparr>) (players r),
                gameLog = []\<rparr>"
    and leave: "\<And>code r pid. P code r \<Longrightarrow>
        P code (r\<lparr>players := filter (\<lambda>p. id_player p \<noteq> pid) (players r)\<rparr>)"
    and log: "\<And>code r en. P code r \<Longrightarrow> P code (r\<lparr>gameLog := pushLog en (gameLog r)\<rparr>)"
  shows "allRooms P (step s e)"
proof (cases e)
  case Connection
  then show ?thesis using inv by (simp add: allRooms_def)
next
  case (Message w en raw)
  show ?thesis
  proof (cases "map_of (conns s) w")
    case None
    then show ?thesis using Message inv by simp
  next
    case (Some c)
    show ?thesis
    proof (cases raw)
      case Unparseable
      then show ?thesis using Message Some inv by (simp add: onMessage_def)
    next
      case (Parsed msg)
      show ?thesis
      proof (cases "handleMessage w c en msg s")
        case (Inl err)
        then show ?thesis using Message Some Parsed inv by (simp add: onMessage_def)
      next
        case (Inr s')
        have "allRooms P s'"
          by (rule handleMessage_allRooms[OF inv Inr])
            (auto intro: create join lifeU dmg nm reset log simp: Message Some Parsed)
        then show ?thesis using Message Some Parsed Inr inv by (simp add: onMessage_def)
      qed
    qed
  qed
next
  case (Close w en)
  then show ?thesis using inv
    by (auto split: option.splits intro!: onClose_allRooms leave log)
qed

lemma allRooms_initial: "allRooms P initial"
  by (simp add: allRooms_def initial_def)

section \<open>Room capacity\<close>

lemma capacity_step:
  "allRooms (\<lambda>code r. length (players r) \<le> 6) s \<Longrightarrow>
   allRooms (\<lambda>code r. length (players r) \<le> 6) (step s e)"
  by (rule step_allRooms) (auto intro: le_trans[OF length_filter_le])

lemma capacity_run:
  "allRooms (\<lambda>code r. length (players r) \<le> 6) s \<Longrightarrow>
   allRooms (\<lambda>code r. length (players r) \<le> 6) (run s evs)"
  by (induction evs arbitrary: s) (simp_all add: capacity_step)

text \<open>
  C1. After every sequence of events (connections, messages of any kind, disconnections)
  from the initial server, every room of the registry has at most 6 players. A
  \<open>JOIN_ROOM\<close> sent on an open connection for a room that has 6 players does nothing but
  send \<open>ERROR "Room is full"\<close> to the sender: the registry, and with it the room's player
  list, is unchanged.
\<close>

theorem room_capacity:
  "(map_of (rooms (run initial evs)) code = Some r \<longrightarrow> length (players r) \<le> 6) \<and>
   (map_of (conns s) w = Some c \<and> readyState c = OPEN \<and>
    map_of (rooms s) joinCode = Some full \<and> length (players full) = 6 \<longrightarrow>
      step s (Message w en (Parsed (JOIN_ROOM joinCode))) = send w (ERROR ''Room is full'') s \<and>
      rooms (step s (Message w en (Parsed (JOIN_ROOM joinCode)))) = rooms s)"
proof (intro conjI impI)
  assume "map_of (rooms (run initial evs)) code = Some r"
  with capacity_run[OF allRooms_initial, of evs] show "length (players r) \<le> 6"
    by (simp add: allRooms_def)
next
  assume h: "map_of (conns s) w = Some c \<and> readyState c = OPEN \<and>
    map_of (rooms s) joinCode = Some full \<and> length (players full) = 6"
  then show "step s (Message w en (Parsed (JOIN_ROOM joinCode))) =
      send w (ERROR ''Room is full'') s"
    by (simp add: onMessage_def)
  then show "rooms (step s (Message w en (Parsed (JOIN_ROOM joinCode)))) = rooms s"
    by simp
qed

text \<open>
  The room \<open>ABCDEF\<close> of \<open>fullRoomTrace\<close> has six players, and the seventh client's
  \<open>JOIN_ROOM\<close> is answered with \<open>Room is full\<close>.
\<close>

theorem room_capacity_witness:
  "length (players (the (map_of (rooms (run initial fullRoomTrace)) ''ABCDEF''))) \<le> 6 \<and>
   step (run initial fullRoomTrace) (Message 7 sampleEnv (Parsed (JOIN_ROOM ''ABCDEF''))) =
     send 7 (ERROR ''Room is full'') (run initial fullRoomTrace) \<and>
   rooms (step (run initial fullRoomTrace) (Message 7 sampleEnv (Parsed (JOIN_ROOM ''ABCDEF'')))) =
     rooms (run initial fullRoomTrace)"
proof -
  let ?s = "run initial fullRoomTrace"
  let ?r = "the (map_of (rooms ?s) ''ABCDEF'')"
  let ?c = "the (map_of (conns ?s) 7)"
  have h1: "map_of (rooms ?s) ''ABCDEF'' = Some ?r" by code_simp
  have h2: "map_of (conns ?s) 7 = Some ?c" by code_simp
  have h3: "readyState ?c = OPEN" by code_simp
  have h4: "length (players ?r) = 6" by code_simp
  show ?thesis
    using room_capacity[of fullRoomTrace "''ABCDEF''" ?r ?s 7 ?c "''ABCDEF''" ?r sampleEnv]
      h1 h2 h3 h4 by blast
qed

section \<open>The game log\<close>

lemma pushLog_eq:
  "pushLog en lg = (if length lg < 50 then lg @ [en] else tl lg @ [en])"
  by (cases lg) (auto simp: pushLog_def Let_def)

lemma length_pushLog: "length lg \<le> 50 \<Longrightarrow> length (pushLog en lg) \<le> 50"
  by (auto simp: pushLog_eq)

lemma fold_pushLog:
  "length lg \<le> 50 \<Longrightarrow> fold pushLog es lg = drop (length lg + length es - 50) (lg @ es)"
proof (induction es arbitrary: lg)
  case Nil
  then show ?case by simp
next
  case (Cons e es)
  show ?case
  proof (cases "length lg < 50")
    case True
    then have "pushLog e lg = lg @ [e]" by (simp add: pushLog_eq)
    moreover have "length (lg @ [e]) \<le> 50" using True by simp
    ultimately show ?thesis using Cons.IH[of "lg @ [e]"] by simp
  next
    case False
    with Cons.prems have len: "length lg = 50" by simp
    then obtain x xs where lg: "lg = x # xs" by (cases lg) auto
    have "pushLog e lg = xs @ [e]" using len lg by (simp add: pushLog_eq)
    moreover have "length (xs @ [e]) \<le> 50" using len lg by simp
    ultimately show ?thesis using Cons.IH[of "xs @ [e]"] len lg by simp
  qed
qed

lemma logBound_step:
  "allRooms (\<lambda>code r. length (gameLog r) \<le> 50) s \<Longrightarrow>
   allRooms (\<lambda>code r. length (gameLog r) \<le> 50) (step s e)"
  by (rule step_allRooms) (auto simp: length_pushLog)

lemma logBound_run:
  "allRooms (\<lambda>code r. length (gameLog r) \<le> 50) s \<Longrightarrow>
   allRooms (\<lambda>code r. length (gameLog r) \<le> 50) (run s evs)"
  by (induction evs arbitrary: s) (simp_all add: logBound_step)

lemma addToLog_room:
  "map_of (rooms s) code = Some r \<Longrightarrow>
   map_of (rooms (addToLog code t m s)) code =
     Some (r\<lparr>gameLog := pushLog \<lparr>time = t, message = m\<rparr> (gameLog r)\<rparr>)"
  by (simp add: map_of_rooms_addToLog)

lemma appendAll_room:
  "map_of (rooms s) code = Some r \<Longrightarrow>
   map_of (rooms (appendAll code tms s)) code =
     Some (r\<lparr>gameLog := fold pushLog (map entryOf tms) (gameLog r)\<rparr>)"
proof (induction tms arbitrary: s r)
  case Nil
  then show ?case by (simp add: appendAll_def)
next
  case (Cons tm tms)
  obtain t m where tm: "tm = (t, m)" by (cases tm)
  have "map_of (rooms (addToLog code t m s)) code =
     Some (r\<lparr>gameLog := pushLog (entryOf tm) (gameLog r)\<rparr>)"
    using Cons.prems tm by (simp add: addToLog_room entryOf_def)
  from Cons.IH[OF this] show ?case using tm by (simp add: appendAll_def)
qed

text \<open>
  C5. After every sequence of events every room's log has at most 50 entries.
  \<open>addToLog\<close> on an existing room puts the \<open>{time, message}\<close> record at the end of the
  log; the log keeps its other entries while it had fewer than 50, and loses exactly
  its first (oldest) entry otherwise. After 51 appends to a log of at most 50 entries
  the log is the 2nd to 51st appended entries in order: the last appended entry is its
  last entry, and the first appended entry is gone (it is not in the log when the 51
  entries are different).
\<close>

theorem log_bounded_fifo:
  "(map_of (rooms (run initial evs)) code = Some r \<longrightarrow> length (gameLog r) \<le> 50) \<and>
   (map_of (rooms s) code = Some r0 \<longrightarrow>
      map_of (rooms (addToLog code t msg s)) code =
        Some (r0\<lparr>gameLog := (if length (gameLog r0) < 50
                                then gameLog r0 @ [\<lparr>time = t, message = msg\<rparr>]
                                else tl (gameLog r0) @ [\<lparr>time = t, message = msg\<rparr>])\<rparr>)) \<and>
   (map_of (rooms s) code = Some r0 \<and> length (gameLog r0) \<le> 50 \<and> length tms = 51 \<longrightarrow>
      map_of (rooms (appendAll code tms s)) code =
        Some (r0\<lparr>gameLog := map entryOf (tl tms)\<rparr>) \<and>
      last (map entryOf (tl tms)) = entryOf (last tms) \<and>
      (distinct (map entryOf tms) \<longrightarrow> entryOf (hd tms) \<notin> set (map entryOf (tl tms))))"
proof (intro conjI impI)
  assume "map_of (rooms (run initial evs)) code = Some r"
  with logBound_run[OF allRooms_initial, of evs] show "length (gameLog r) \<le> 50"
    by (simp add: allRooms_def)
next
  assume "map_of (rooms s) code = Some r0"
  then show "map_of (rooms (addToLog code t msg s)) code =
        Some (r0\<lparr>gameLog := (if length (gameLog r0) < 50
                                then gameLog r0 @ [\<lparr>time = t, message = msg\<rparr>]
                                else tl (gameLog r0) @ [\<lparr>time = t, message = msg\<rparr>])\<rparr>)"
    by (simp add: addToLog_room pushLog_eq)
next
  assume h: "map_of (rooms s) code = Some r0 \<and> length (gameLog r0) \<le> 50 \<and> length tms = 51"
  then have "fold pushLog (map entryOf tms) (gameLog r0) = drop 1 (map entryOf tms)"
    by (simp add: fold_pushLog)
  then show "map_of (rooms (appendAll code tms s)) code = Some (r0\<lparr>gameLog := map entryOf (tl tms)\<rparr>)"
    using h by (simp add: appendAll_room drop_Suc map_tl)
  obtain x xs where tms: "tms = x # xs" and "length xs = 50" using h by (cases tms) auto
  then have xs: "xs \<noteq> []" by auto
  show "last (map entryOf (tl tms)) = entryOf (last tms)"
    using tms xs by (simp add: last_map)
  show "entryOf (hd tms) \<notin> set (map entryOf (tl tms))" if "distinct (map entryOf tms)"
    using that tms xs by auto
qed

text \<open>
  In the room of \<open>fullRoomTrace\<close> (6 log entries): one more append, and the 51 appends of
  \<open>sampleAppends\<close>.
\<close>

theorem log_bounded_fifo_witness:
  "length (gameLog (the (map_of (rooms (run initial fullRoomTrace)) ''ABCDEF''))) \<le> 50 \<and>
   map_of (rooms (addToLog ''ABCDEF'' ''1:23:46 PM'' ''hello'' (run initial fullRoomTrace))) ''ABCDEF'' =
     Some ((the (map_of (rooms (run initial fullRoomTrace)) ''ABCDEF''))
        \<lparr>gameLog := gameLog (the (map_of (rooms (run initial fullRoomTrace)) ''ABCDEF'')) @
                      [\<lparr>time = ''1:23:46 PM'', message = ''hello''\<rparr>]\<rparr>) \<and>
   map_of (rooms (appendAll ''ABCDEF'' sampleAppends (run initial fullRoomTrace))) ''ABCDEF'' =
     Some ((the (map_of (rooms (run initial fullRoomTrace)) ''ABCDEF''))
        \<lparr>gameLog := map entryOf (tl sampleAppends)\<rparr>) \<and>
   last (map entryOf (tl sampleAppends)) = entryOf (last sampleAppends) \<and>
   entryOf (hd sampleAppends) \<notin> set (map entryOf (tl sampleAppends))"
proof -
  let ?s = "run initial fullRoomTrace"
  let ?r = "the (map_of (rooms ?s) ''ABCDEF'')"
  have h1: "map_of (rooms ?s) ''ABCDEF'' = Some ?r" by code_simp
  have h2: "length (gameLog ?r) \<le> 50" by code_simp
  have h3: "length sampleAppends = 51" by code_simp
  have h4: "distinct (map entryOf sampleAppends)" by code_simp
  have h5: "length (gameLog ?r) < 50" by code_simp
  show ?thesis
    using log_bounded_fifo[of fullRoomTrace "''ABCDEF''" ?r ?s ?r "''1:23:46 PM''" "''hello''"
        sampleAppends] h1 h2 h3 h4 h5
    by simp
qed

section \<open>Non-negative life totals and damage entries\<close>

lemma list_all_updateFound:
  "list_all Q ps \<Longrightarrow> (\<And>p. Q p \<Longrightarrow> Q (f p)) \<Longrightarrow> list_all Q (updateFound i f ps)"
  by (induction ps) auto

lemma list_all_update:
  "list_all Q al \<Longrightarrow> Q (k, v) \<Longrightarrow> list_all Q (AList.update k v al)"
  by (induction al) auto


lemma commanderDamage_applyDamage:
  "commanderDamage (applyDamage src d p) = AList.update src d (commanderDamage p)"
  by (simp add: applyDamage_def Let_def)

lemma livesNonneg_simps [simp]:
  "livesNonneg \<lparr>players = ps, gameLog = lg\<rparr> = list_all (\<lambda>p. 0 \<le> life p) ps"
  "livesNonneg (r\<lparr>players := ps\<rparr>) = list_all (\<lambda>p. 0 \<le> life p) ps"
  "livesNonneg (r\<lparr>gameLog := lg\<rparr>) = livesNonneg r"
  by (simp_all add: livesNonneg_def)

lemma damagesNonneg_simps [simp]:
  "damagesNonneg \<lparr>players = ps, gameLog = lg\<rparr> =
     list_all (\<lambda>p. list_all (\<lambda>kv. 0 \<le> snd kv) (commanderDamage p)) ps"
  "damagesNonneg (r\<lparr>players := ps\<rparr>) =
     list_all (\<lambda>p. list_all (\<lambda>kv. 0 \<le> snd kv) (commanderDamage p)) ps"
  "damagesNonneg (r\<lparr>gameLog := lg\<rparr>) = damagesNonneg r"
  by (simp_all add: damagesNonneg_def)



lemma damagesNonneg_step:
  assumes "damageFieldNonneg e" and "allRooms (\<lambda>code. damagesNonneg) s"
  shows "allRooms (\<lambda>code. damagesNonneg) (step s e)"
proof (rule step_allRooms[OF assms(2)])
  fix w en code r pid l
  assume "damagesNonneg r"
  then show "damagesNonneg (r\<lparr>players := updateFound pid (\<lambda>p. p\<lparr>life := l\<rparr>) (players r)\<rparr>)"
    by (auto simp: damagesNonneg_def intro: list_all_updateFound)
next
  fix w en code r src tgt d
  assume "e = Message w en (Parsed (UPDATE_COMMANDER_DAMAGE src tgt d))" and "damagesNonneg r"
  then show "damagesNonneg (r\<lparr>players := updateFound tgt (applyDamage src d) (players r)\<rparr>)"
    using assms(1)
    by (auto simp: damagesNonneg_def commanderDamage_applyDamage
        intro!: list_all_updateFound list_all_update)
next
  fix code r pid n
  assume "damagesNonneg r"
  then show "damagesNonneg (r\<lparr>players := updateFound pid (\<lambda>p. p\<lparr>name := n\<rparr>) (players r)\<rparr>)"
    by (auto simp: damagesNonneg_def intro: list_all_updateFound)
qed (auto simp: damagesNonneg_def list_all_iff)

lemma damagesNonneg_run:
  "list_all damageFieldNonneg evs \<Longrightarrow> allRooms (\<lambda>code. damagesNonneg) s \<Longrightarrow>
   allRooms (\<lambda>code. damagesNonneg) (run s evs)"
  by (induction evs arbitrary: s) (simp_all add: damagesNonneg_step)


lemma room_after_put_log:
  "map_of (rooms (addToLog code t m (putRoom code r s))) code =
     Some (r\<lparr>gameLog := pushLog \<lparr>time = t, message = m\<rparr> (gameLog r)\<rparr>)"
  by (simp add: map_of_rooms_addToLog update_conv')



text \<open>
  C8 as stated fails: the server stores any \<open>damage\<close> field. A client creates a room and
  sends \<open>UPDATE_COMMANDER_DAMAGE\<close> with damage -3 from itself to itself; the stored entry
  is -3.
\<close>

theorem damage_negative_counterexample:
  "map_option (\<lambda>r. map commanderDamage (players r))
     (map_of (rooms (run initial
        [Connection,
         Message 1 sampleEnv (Parsed CREATE_ROOM),
         Message 1 sampleEnv (Parsed (UPDATE_COMMANDER_DAMAGE ''player1'' ''player1'' (- 3)))]))
       ''ABCDEF'') = Some [[(''player1'', - 3)]]"
  by code_simp

text \<open>
  C8, as the code has it. After every sequence of events in which no
  \<open>UPDATE_COMMANDER_DAMAGE\<close> carries a negative \<open>damage\<close> field, every entry of every
  player's commander-damage map is at least 0.
\<close>

theorem damage_nonneg_when_fields_nonneg:
  "list_all damageFieldNonneg evs \<and> map_of (rooms (run initial evs)) code = Some r \<and>
   p \<in> set (players r) \<and> (k, v) \<in> set (commanderDamage p) \<longrightarrow> 0 \<le> v"
proof
  assume h: "list_all damageFieldNonneg evs \<and> map_of (rooms (run initial evs)) code = Some r \<and>
   p \<in> set (players r) \<and> (k, v) \<in> set (commanderDamage p)"
  then have "allRooms (\<lambda>code. damagesNonneg) (run initial evs)"
    by (intro damagesNonneg_run allRooms_initial) simp
  with h have "damagesNonneg r" by (auto simp: allRooms_def)
  with h show "0 \<le> v" by (fastforce simp: damagesNonneg_def list_all_iff)
qed

text \<open>
  The entry \<open>player1: 3\<close> of the second player in \<open>gameTrace\<close>.
\<close>

theorem damage_nonneg_when_fields_nonneg_witness:
  "(''player1'', 3) \<in> set (commanderDamage (players (the (map_of (rooms (run initial gameTrace)) ''ABCDEF'')) ! 1))
   \<and> (0::int) \<le> 3"
proof -
  let ?s = "run initial gameTrace"
  let ?r = "the (map_of (rooms ?s) ''ABCDEF'')"
  have h1: "list_all damageFieldNonneg gameTrace" by code_simp
  have h2: "map_of (rooms ?s) ''ABCDEF'' = Some ?r" by code_simp
  have h3: "players ?r ! 1 \<in> set (players ?r)" by code_simp
  have h4: "(''player1'', 3) \<in> set (commanderDamage (players ?r ! 1))" by code_simp
  show ?thesis
    using damage_nonneg_when_fields_nonneg[of gameTrace "''ABCDEF''" ?r "players ?r ! 1"
        "''player1''" 3] h1 h2 h3 h4
    by blast
qed

section \<open>Commander damage\<close>

lemma id_applyDamage [simp]: "id_player (applyDamage src d p) = id_player p"
  by (simp add: applyDamage_def Let_def)

lemma name_applyDamage [simp]: "name (applyDamage src d p) = name p"
  by (simp add: applyDamage_def Let_def)

lemma oldDamageOf_applyDamage [simp]: "oldDamageOf (applyDamage src d p) src = d"
  by (simp add: applyDamage_def oldDamageOf_def Let_def update_conv')

lemma applyDamage_idem [simp]: "applyDamage src d (applyDamage src d p) = applyDamage src d p"
proof -
  have "applyDamage src d q = q" if "oldDamageOf q src = d" "map_of (commanderDamage q) src = Some d" for q
    using that by (simp add: applyDamage_def Let_def update_triv)
  moreover have "map_of (commanderDamage (applyDamage src d p)) src = Some d"
    by (simp add: commanderDamage_applyDamage update_conv')
  ultimately show ?thesis by simp
qed




lemma currentRoom_broadcastGameState [simp]:
  "currentRoom (broadcastGameState code s) c = currentRoom s c"
  by (simp add: currentRoom_def split: option.split)












section \<open>Messages that change nothing\<close>

text \<open>
  C10. An \<open>UPDATE_LIFE\<close> or \<open>UPDATE_NAME\<close> whose \<open>playerId\<close> names no player of the
  sender's room, and an \<open>UPDATE_COMMANDER_DAMAGE\<close> whose source or target names none,
  leaves the whole server state as it was: the rooms (players and logs) are unchanged
  and nothing is sent, neither a \<open>GAME_UPDATE\<close> nor an \<open>ERROR\<close>. The same holds when
  the sender is in no room.
\<close>

theorem unknown_player_is_noop:
  "(\<not> inSendersRoom s w pid \<longrightarrow>
      step s (Message w en (Parsed (UPDATE_LIFE pid newLife))) = s \<and>
      step s (Message w en (Parsed (UPDATE_NAME pid newName))) = s) \<and>
   (\<not> inSendersRoom s w src \<or> \<not> inSendersRoom s w tgt \<longrightarrow>
      step s (Message w en (Parsed (UPDATE_COMMANDER_DAMAGE src tgt d))) = s)"
  by (auto simp: inSendersRoom_def onMessage_def split: option.splits)

text \<open>
  After \<open>gameTrace\<close> there is no \<open>player9\<close>.
\<close>

theorem unknown_player_is_noop_witness:
  "step (run initial gameTrace) (Message 1 sampleEnv (Parsed (UPDATE_LIFE ''player9'' 7))) =
     run initial gameTrace \<and>
   step (run initial gameTrace) (Message 1 sampleEnv (Parsed (UPDATE_NAME ''player9'' ''Nine''))) =
     run initial gameTrace \<and>
   step (run initial gameTrace)
     (Message 1 sampleEnv (Parsed (UPDATE_COMMANDER_DAMAGE ''player1'' ''player9'' 7))) =
     run initial gameTrace"
proof -
  have h: "\<not> inSendersRoom (run initial gameTrace) 1 ''player9''" by code_simp
  show ?thesis
    using unknown_player_is_noop[of "run initial gameTrace" 1 "''player9''" sampleEnv 7 "''Nine''"
        "''player1''" "''player9''" 7] h
    by blast
qed

section \<open>Malformed frames\<close>

lemma frame_putRoom [simp]: "putRoom code r (s\<lparr>outbox := ob\<rparr>) = (putRoom code r s)\<lparr>outbox := ob\<rparr>"
  by (simp add: putRoom_def)

lemma frame_addToLog [simp]: "addToLog code t m (s\<lparr>outbox := ob\<rparr>) = (addToLog code t m s)\<lparr>outbox := ob\<rparr>"
  by (simp add: addToLog_def putRoom_def split: option.split)

lemma frame_setCurrentRoomCode [simp]:
  "setCurrentRoomCode w c code (s\<lparr>outbox := ob\<rparr>) = (setCurrentRoomCode w c code s)\<lparr>outbox := ob\<rparr>"
  by (simp add: setCurrentRoomCode_def)

lemma frame_getGameState [simp]: "getGameState (s\<lparr>outbox := ob\<rparr>) = getGameState s"
  by (simp add: getGameState_def fun_eq_iff)

lemma frame_currentRoom [simp]: "currentRoom (s\<lparr>outbox := ob\<rparr>) = currentRoom s"
  by (simp add: currentRoom_def fun_eq_iff split: option.split)

lemma frame_isOpen [simp]: "isOpen (s\<lparr>outbox := ob\<rparr>) = isOpen s"
  by (simp add: isOpen_def fun_eq_iff)

lemma send_eq: "send w m s = s\<lparr>outbox := outbox s @ [(w, m)]\<rparr>"
  by (simp add: send_def)

lemma broadcast_eq:
  "broadcastGameState code s = s\<lparr>outbox := outbox s @ broadcastMsgs code s\<rparr>"
  by (simp add: broadcastGameState_def broadcastMsgs_def split: option.split)

lemma frame_broadcastMsgs [simp]: "broadcastMsgs code (s\<lparr>outbox := ob\<rparr>) = broadcastMsgs code s"
  by (simp add: broadcastMsgs_def split: option.split)

lemma handle_frame:
  "handleMessage w c e msg (s\<lparr>outbox := ob\<rparr>) =
     map_sum (\<lambda>x. x) (\<lambda>s'. s'\<lparr>outbox := ob @ outbox s'\<rparr>) (handleMessage w c e msg (s\<lparr>outbox := []\<rparr>))"
  by (cases msg)
    (simp_all add: Let_def send_eq broadcast_eq split: option.split prod.split)

lemma onClose_frame:
  "onClose w c e (s\<lparr>outbox := ob\<rparr>) =
     (onClose w c e (s\<lparr>outbox := []\<rparr>))\<lparr>outbox := ob @ outbox (onClose w c e (s\<lparr>outbox := []\<rparr>))\<rparr>"
  by (simp add: onClose_def Let_def broadcast_eq split: option.split prod.split)

lemma step_frame:
  "step (s\<lparr>outbox := ob\<rparr>) ev =
     (step (s\<lparr>outbox := []\<rparr>) ev)\<lparr>outbox := ob @ outbox (step (s\<lparr>outbox := []\<rparr>) ev)\<rparr>"
proof (cases ev)
  case Connection
  then show ?thesis by simp
next
  case (Message w e raw)
  show ?thesis
  proof (cases raw)
    case Unparseable
    then show ?thesis using Message
      by (simp add: onMessage_def send_eq split: option.split)
  next
    case (Parsed msg)
    show ?thesis
    proof (cases "map_of (conns s) w")
      case None
      then show ?thesis using Message by simp
    next
      case (Some c)
      show ?thesis
      proof (cases "handleMessage w c e msg (s\<lparr>outbox := []\<rparr>)")
        case (Inl err)
        then show ?thesis using Message Parsed Some handle_frame[where w=w and c=c and e=e and msg=msg and s=s and ob=ob]
          by (simp add: onMessage_def send_eq)
      next
        case (Inr s')
        then show ?thesis using Message Parsed Some handle_frame[where w=w and c=c and e=e and msg=msg and s=s and ob=ob]
          by (simp add: onMessage_def)
      qed
    qed
  qed
next
  case (Close w e)
  show ?thesis
  proof (cases "map_of (conns s) w")
    case None
    then show ?thesis using Close by simp
  next
    case (Some c)
    have sw: "s\<lparr>outbox := Z, conns := cs\<rparr> = s\<lparr>conns := cs, outbox := Z\<rparr>" for Z cs by simp
    show ?thesis using Close Some
        onClose_frame[where w=w and c=c and e=e and ob=ob
          and s="s\<lparr>conns := AList.update w (c\<lparr>readyState := CLOSED\<rparr>) (conns s)\<rparr>"]
      by (simp add: sw)
  qed
qed

lemma run_frame:
  "run (s\<lparr>outbox := ob\<rparr>) evs =
     (run (s\<lparr>outbox := []\<rparr>) evs)\<lparr>outbox := ob @ outbox (run (s\<lparr>outbox := []\<rparr>) evs)\<rparr>"
proof (induction evs arbitrary: s ob)
  case Nil
  then show ?case by simp
next
  case (Cons ev evs)
  define s1 where "s1 = step (s\<lparr>outbox := []\<rparr>) ev"
  define R where "R = run (s1\<lparr>outbox := []\<rparr>) evs"
  have a: "step (s\<lparr>outbox := ob\<rparr>) ev = s1\<lparr>outbox := ob @ outbox s1\<rparr>"
    unfolding s1_def by (rule step_frame)
  have b: "run (s1\<lparr>outbox := ob @ outbox s1\<rparr>) evs = R\<lparr>outbox := (ob @ outbox s1) @ outbox R\<rparr>"
    unfolding R_def by (rule Cons.IH)
  have c: "run s1 evs = R\<lparr>outbox := outbox s1 @ outbox R\<rparr>"
    using Cons.IH[where s=s1 and ob="outbox s1"] unfolding R_def by simp
  show ?case
    by (simp add: a b c s1_def[symmetric])
qed

text \<open>
  C9. A frame that \<open>JSON.parse\<close> rejects, received on an open connection, sends exactly
  one message, \<open>ERROR "Invalid message format"\<close>, to that connection and changes nothing
  else: rooms, connections and the id counter are as before. The server goes on: after
  any further events, from this or other connections, the rooms, the connections and
  the counter are what they would be had the frame never arrived, and the messages sent
  are the same ones, after the one \<open>ERROR\<close>.
\<close>

theorem malformed_message:
  "map_of (conns s) w = Some c \<and> readyState c = OPEN \<longrightarrow>
     step s (Message w en Unparseable) = send w (ERROR ''Invalid message format'') s \<and>
     rooms (step s (Message w en Unparseable)) = rooms s \<and>
     conns (step s (Message w en Unparseable)) = conns s \<and>
     playerIdCounter (step s (Message w en Unparseable)) = playerIdCounter s \<and>
     outbox (step s (Message w en Unparseable)) =
       outbox s @ [(w, ERROR ''Invalid message format'')] \<and>
     rooms (run (step s (Message w en Unparseable)) evs) = rooms (run s evs) \<and>
     conns (run (step s (Message w en Unparseable)) evs) = conns (run s evs) \<and>
     playerIdCounter (run (step s (Message w en Unparseable)) evs) =
       playerIdCounter (run s evs) \<and>
     outbox (run (step s (Message w en Unparseable)) evs) =
       outbox s @ (w, ERROR ''Invalid message format'') #
         drop (length (outbox s)) (outbox (run s evs))"
proof
  assume h: "map_of (conns s) w = Some c \<and> readyState c = OPEN"
  let ?m = "(w, ERROR ''Invalid message format'')"
  define R where "R = run (s\<lparr>outbox := []\<rparr>) evs"
  have st: "step s (Message w en Unparseable) = send w (ERROR ''Invalid message format'') s"
    using h by (simp add: onMessage_def)
  have r1: "run (send w (ERROR ''Invalid message format'') s) evs =
      R\<lparr>outbox := (outbox s @ [?m]) @ outbox R\<rparr>"
    using run_frame[where s=s and ob="outbox s @ [?m]" and evs=evs] by (simp add: send_eq R_def)
  have r0: "run s evs = R\<lparr>outbox := outbox s @ outbox R\<rparr>"
    using run_frame[where s=s and ob="outbox s" and evs=evs] by (simp add: R_def)
  show "step s (Message w en Unparseable) = send w (ERROR ''Invalid message format'') s \<and>
     rooms (step s (Message w en Unparseable)) = rooms s \<and>
     conns (step s (Message w en Unparseable)) = conns s \<and>
     playerIdCounter (step s (Message w en Unparseable)) = playerIdCounter s \<and>
     outbox (step s (Message w en Unparseable)) =
       outbox s @ [(w, ERROR ''Invalid message format'')] \<and>
     rooms (run (step s (Message w en Unparseable)) evs) = rooms (run s evs) \<and>
     conns (run (step s (Message w en Unparseable)) evs) = conns (run s evs) \<and>
     playerIdCounter (run (step s (Message w en Unparseable)) evs) =
       playerIdCounter (run s evs) \<and>
     outbox (run (step s (Message w en Unparseable)) evs) =
       outbox s @ (w, ERROR ''Invalid message format'') #
         drop (length (outbox s)) (outbox (run s evs))"
    unfolding st r1 by (simp add: r0)
qed

text \<open>
  After \<open>gameTrace\<close> the second client sends a malformed frame, then the first client
  updates its life.
\<close>

theorem malformed_message_witness:
  "step (run initial gameTrace) (Message 2 sampleEnv Unparseable) =
     send 2 (ERROR ''Invalid message format'') (run initial gameTrace) \<and>
   rooms (run (step (run initial gameTrace) (Message 2 sampleEnv Unparseable))
            [Message 1 sampleEnv (Parsed (UPDATE_LIFE ''player1'' 30))]) =
     rooms (run (run initial gameTrace) [Message 1 sampleEnv (Parsed (UPDATE_LIFE ''player1'' 30))]) \<and>
   outbox (run (step (run initial gameTrace) (Message 2 sampleEnv Unparseable))
            [Message 1 sampleEnv (Parsed (UPDATE_LIFE ''player1'' 30))]) =
     outbox (run initial gameTrace) @ (2, ERROR ''Invalid message format'') #
       drop (length (outbox (run initial gameTrace)))
         (outbox (run (run initial gameTrace)
            [Message 1 sampleEnv (Parsed (UPDATE_LIFE ''player1'' 30))]))"
proof -
  let ?s = "run initial gameTrace"
  let ?c = "the (map_of (conns ?s) 2)"
  have h1: "map_of (conns ?s) 2 = Some ?c" by code_simp
  have h2: "readyState ?c = OPEN" by code_simp
  show ?thesis
    using malformed_message[of ?s 2 ?c sampleEnv
        "[Message 1 sampleEnv (Parsed (UPDATE_LIFE ''player1'' 30))]"] h1 h2
    by blast
qed

section \<open>Disconnection\<close>

lemma length_concat_charAt: "length (concat (map (charAt str) xs)) \<le> length xs"
  by (induction xs) (auto simp: charAt_def)

lemma length_generateRoomCode: "length (generateRoomCode ds) \<le> 6"
  using length_concat_charAt[of chars "take 6 ds"] by (simp add: generateRoomCode_def)

lemma short_not_inherited: "length code \<le> 6 \<Longrightarrow> code \<notin> set objectPrototypeKeys"
  by (auto simp: objectPrototypeKeys_def)

lemma codes_short_step:
  "allRooms (\<lambda>code r. length code \<le> 6) s \<Longrightarrow> allRooms (\<lambda>code r. length code \<le> 6) (step s e)"
  by (rule step_allRooms) (auto simp: length_generateRoomCode)

lemma codes_short_run:
  "allRooms (\<lambda>code r. length code \<le> 6) s \<Longrightarrow> allRooms (\<lambda>code r. length code \<le> 6) (run s evs)"
  by (induction evs arbitrary: s) (simp_all add: codes_short_step)

lemma absent_iff: "map_of (rooms s) code = None \<longleftrightarrow> allRooms (\<lambda>c r. c \<noteq> code) s"
  by (auto simp: allRooms_def)

lemma absent_step:
  assumes "map_of (rooms s) code = None" and "notCreating code e"
  shows "map_of (rooms (step s e)) code = None"
  unfolding absent_iff
proof (rule step_allRooms)
  show "allRooms (\<lambda>c r. c \<noteq> code) s" using assms(1) by (simp add: absent_iff)
next
  fix w en c pl
  assume "e = Message w en (Parsed CREATE_ROOM)"
  then show "generateRoomCode (draws en) \<noteq> code" using assms(2) by simp
qed auto

lemma absent_run:
  "map_of (rooms s) code = None \<Longrightarrow> list_all (notCreating code) evs \<Longrightarrow>
   map_of (rooms (run s evs)) code = None"
  by (induction evs arbitrary: s) (simp_all add: absent_step)

lemma currentRoom_conns_update [simp]: "currentRoom (s\<lparr>conns := cs\<rparr>) c = currentRoom s c"
  by (simp add: currentRoom_def split: option.split)

lemma close_last:
  assumes "map_of (conns s) w = Some c" "readyState c = OPEN" "currentRoom s c = Some (code, r)"
    and "list_all (\<lambda>p. id_player p = playerId c) (players r)"
  shows "map_of (rooms (step s (Close w en))) code = None"
proof -
  have "filter (\<lambda>p. id_player p \<noteq> playerId c) (players r) = []"
    using assms(4) by (auto simp: list_all_iff filter_empty_conv)
  then show ?thesis using assms(1-3)
    by (simp add: onClose_def Let_def delete_conv')
qed

lemma close_not_last:
  assumes "map_of (conns s) w = Some c" "readyState c = OPEN" "currentRoom s c = Some (code, r)"
    and "\<not> list_all (\<lambda>p. id_player p = playerId c) (players r)"
  shows "map_option players (map_of (rooms (step s (Close w en))) code) =
     Some (filter (\<lambda>p. id_player p \<noteq> playerId c) (players r))"
proof -
  have "filter (\<lambda>p. id_player p \<noteq> playerId c) (players r) \<noteq> []"
    using assms(4) by (auto simp: list_all_iff filter_empty_conv)
  then show ?thesis using assms(1-3)
    by (simp add: onClose_def Let_def map_of_rooms_addToLog update_conv')
qed

text \<open>
  C6, as the code has it. In a state reached from the initial server, let an open
  connection disconnect whose \<open>currentRoomCode\<close> names a room of the registry: the room
  it created or joined last. When every player of that room is the connection's player,
  the room is removed from the registry, and every later \<open>JOIN_ROOM\<close> with its code, sent
  on any open connection after any further events that do not create a room with the
  same code again, is answered with \<open>ERROR "Room not found"\<close> and nothing else. When the
  room holds another player it stays in the registry, its player list being the old one
  without the connection's player.
\<close>

theorem disconnect_removes_player_or_room:
  "s = run initial evs \<and> map_of (conns s) w = Some c \<and> readyState c = OPEN \<and>
   currentRoom s c = Some (code, r) \<longrightarrow>
     (list_all (\<lambda>p. id_player p = playerId c) (players r) \<longrightarrow>
        map_of (rooms (step s (Close w en))) code = None \<and>
        (list_all (notCreating code) evs' \<and>
         map_of (conns (run (step s (Close w en)) evs')) w' = Some c' \<and> readyState c' = OPEN \<longrightarrow>
           step (run (step s (Close w en)) evs') (Message w' en' (Parsed (JOIN_ROOM code))) =
             send w' (ERROR ''Room not found'') (run (step s (Close w en)) evs'))) \<and>
     (\<not> list_all (\<lambda>p. id_player p = playerId c) (players r) \<longrightarrow>
        map_option players (map_of (rooms (step s (Close w en))) code) =
          Some (filter (\<lambda>p. id_player p \<noteq> playerId c) (players r)))"
proof (intro impI conjI)
  assume h: "s = run initial evs \<and> map_of (conns s) w = Some c \<and> readyState c = OPEN \<and>
   currentRoom s c = Some (code, r)"
  then have reach: "s = run initial evs" and conn: "map_of (conns s) w = Some c"
    and opn: "readyState c = OPEN" and cr: "currentRoom s c = Some (code, r)"
    by blast+
  {
    assume last: "list_all (\<lambda>p. id_player p = playerId c) (players r)"
    show gone: "map_of (rooms (step s (Close w en))) code = None"
      by (rule close_last[OF conn opn cr last])
    assume j: "list_all (notCreating code) evs' \<and>
         map_of (conns (run (step s (Close w en)) evs')) w' = Some c' \<and> readyState c' = OPEN"
    have "map_of (rooms s) code = Some r" using cr by (simp add: currentRoom_SomeD)
    moreover have "allRooms (\<lambda>code r. length code \<le> 6) s"
      unfolding reach by (rule codes_short_run[OF allRooms_initial])
    ultimately have "length code \<le> 6" by (auto simp: allRooms_def)
    then have ni: "code \<notin> set objectPrototypeKeys" by (rule short_not_inherited)
    have "map_of (rooms (run (step s (Close w en)) evs')) code = None"
      using gone j by (intro absent_run) simp_all
    then show "step (run (step s (Close w en)) evs') (Message w' en' (Parsed (JOIN_ROOM code))) =
             send w' (ERROR ''Room not found'') (run (step s (Close w en)) evs')"
      using j ni by (simp add: onMessage_def)
  }
  {
    assume nl: "\<not> list_all (\<lambda>p. id_player p = playerId c) (players r)"
    show "map_option players (map_of (rooms (step s (Close w en))) code) =
          Some (filter (\<lambda>p. id_player p \<noteq> playerId c) (players r))"
      by (rule close_not_last[OF conn opn cr nl])
  }
qed

text \<open>
  The second client leaves the room of \<open>twoPlayersTrace\<close>: the room stays, with the
  first player. Then the first client leaves: the room is gone, and the third client's
  \<open>JOIN_ROOM\<close> is answered with \<open>Room not found\<close>.
\<close>

theorem disconnect_removes_player_or_room_witness:
  "map_option players
     (map_of (rooms (step (run initial twoPlayersTrace) (Close 2 sampleEnv))) ''ABCDEF'') =
     Some (filter (\<lambda>p. id_player p \<noteq> playerId (the (map_of (conns (run initial twoPlayersTrace)) 2)))
            (players (the (map_of (rooms (run initial twoPlayersTrace)) ''ABCDEF'')))) \<and>
   map_of (rooms (step (run initial (twoPlayersTrace @ [Close 2 sampleEnv])) (Close 1 sampleEnv)))
     ''ABCDEF'' = None \<and>
   step (run (step (run initial (twoPlayersTrace @ [Close 2 sampleEnv])) (Close 1 sampleEnv))
          [Connection])
        (Message 3 sampleEnv (Parsed (JOIN_ROOM ''ABCDEF''))) =
     send 3 (ERROR ''Room not found'')
       (run (step (run initial (twoPlayersTrace @ [Close 2 sampleEnv])) (Close 1 sampleEnv))
          [Connection])"
proof -
  let ?a = "run initial twoPlayersTrace"
  let ?ca = "the (map_of (conns ?a) 2)"
  let ?ra = "the (map_of (rooms ?a) ''ABCDEF'')"
  let ?b = "run initial (twoPlayersTrace @ [Close 2 sampleEnv])"
  let ?cb = "the (map_of (conns ?b) 1)"
  let ?rb = "the (map_of (rooms ?b) ''ABCDEF'')"
  let ?b' = "run (step ?b (Close 1 sampleEnv)) [Connection]"
  let ?c3 = "the (map_of (conns ?b') 3)"
  have a1: "map_of (conns ?a) 2 = Some ?ca" by code_simp
  have a2: "readyState ?ca = OPEN" by code_simp
  have a3: "currentRoom ?a ?ca = Some (''ABCDEF'', ?ra)" by code_simp
  have a4: "\<not> list_all (\<lambda>p. id_player p = playerId ?ca) (players ?ra)" by code_simp
  have b1: "map_of (conns ?b) 1 = Some ?cb" by code_simp
  have b2: "readyState ?cb = OPEN" by code_simp
  have b3: "currentRoom ?b ?cb = Some (''ABCDEF'', ?rb)" by code_simp
  have b4: "list_all (\<lambda>p. id_player p = playerId ?cb) (players ?rb)" by code_simp
  have b5: "list_all (notCreating ''ABCDEF'') [Connection]" by code_simp
  have b6: "map_of (conns ?b') 3 = Some ?c3" by code_simp
  have b7: "readyState ?c3 = OPEN" by code_simp
  show ?thesis
    using disconnect_removes_player_or_room[of ?a twoPlayersTrace 2 ?ca "''ABCDEF''" ?ra sampleEnv]
      disconnect_removes_player_or_room[of ?b "twoPlayersTrace @ [Close 2 sampleEnv]" 1 ?cb
        "''ABCDEF''" ?rb sampleEnv "[Connection]" 3 ?c3 sampleEnv]
      a1 a2 a3 a4 b1 b2 b3 b4 b5 b6 b7
    by blast
qed

text \<open>
  C6 as stated fails for a room the connection does not track any more. A client creates
  a room, then a second one, and disconnects: it was the only player of both rooms, and
  only the second room is removed. The first room stays in the registry with the
  disconnected player in its list, and a later \<open>JOIN_ROOM\<close> with its code succeeds.
\<close>

theorem stale_room_counterexample:
  "map (\<lambda>cr. (fst cr, map id_player (players (snd cr))))
     (rooms (run initial
        [Connection,
         Message 1 sampleEnv (Parsed CREATE_ROOM),
         Message 1 sampleEnv2 (Parsed CREATE_ROOM)])) =
     [(''ABCDEF'', [''player1'']), (''GHIJKL'', [''player1''])] \<and>
   map (\<lambda>cr. (fst cr, map id_player (players (snd cr))))
     (rooms (run initial
        [Connection,
         Message 1 sampleEnv (Parsed CREATE_ROOM),
         Message 1 sampleEnv2 (Parsed CREATE_ROOM),
         Close 1 sampleEnv])) =
     [(''ABCDEF'', [''player1''])] \<and>
   map_option readyState
     (map_of (conns (run initial
        [Connection,
         Message 1 sampleEnv (Parsed CREATE_ROOM),
         Message 1 sampleEnv2 (Parsed CREATE_ROOM),
         Close 1 sampleEnv])) 1) = Some CLOSED \<and>
   map (\<lambda>cr. (fst cr, map id_player (players (snd cr))))
     (rooms (run initial
        [Connection,
         Message 1 sampleEnv (Parsed CREATE_ROOM),
         Message 1 sampleEnv2 (Parsed CREATE_ROOM),
         Close 1 sampleEnv,
         Connection,
         Message 2 sampleEnv (Parsed (JOIN_ROOM ''ABCDEF''))])) =
     [(''ABCDEF'', [''player1'', ''player2''])]"
  by code_simp

section \<open>One room per player\<close>

lemma map_id_updateFound:
  "(\<And>p. id_player (f p) = id_player p) \<Longrightarrow>
   map id_player (updateFound i f ps) = map id_player ps"
  by (induction ps) auto

lemma idsOf_simps [simp]:
  "idsOf \<lparr>players = ps, gameLog = lg\<rparr> = set (map id_player ps)"
  "idsOf (r\<lparr>players := ps\<rparr>) = set (map id_player ps)"
  "idsOf (r\<lparr>gameLog := lg\<rparr>) = idsOf r"
  by (simp_all add: idsOf_def)

lemma ids_step:
  "allRooms (\<lambda>code r'. \<forall>i \<in> idsOf r'. wasListed s code i \<or> enters s e code i) (step s e)"
proof (rule step_allRooms)
  show "allRooms (\<lambda>code r'. \<forall>i \<in> idsOf r'. wasListed s code i \<or> enters s e code i) s"
    by (auto simp: allRooms_def wasListed_def)
next
  fix w en c and pl :: player
  assume "e = Message w en (Parsed CREATE_ROOM)" "map_of (conns s) w = Some c"
    "id_player pl = playerId c"
  then show "\<forall>i\<in>idsOf \<lparr>players = [pl], gameLog = []\<rparr>.
       wasListed s (generateRoomCode (draws en)) i \<or> enters s e (generateRoomCode (draws en)) i"
    by (auto simp: enters_def)
next
  fix w en c code r and pl :: player
  assume "e = Message w en (Parsed (JOIN_ROOM code))" "map_of (conns s) w = Some c"
    "id_player pl = playerId c" "\<forall>i\<in>idsOf r. wasListed s code i \<or> enters s e code i"
  then show "\<forall>i\<in>idsOf (r\<lparr>players := players r @ [pl]\<rparr>). wasListed s code i \<or> enters s e code i"
    by (auto simp: enters_def idsOf_def)
next
  fix w en code r src tgt d
  assume "\<forall>i\<in>idsOf r. wasListed s code i \<or> enters s e code i"
  then show "\<forall>i\<in>idsOf (r\<lparr>players := updateFound tgt (applyDamage src d) (players r)\<rparr>).
       wasListed s code i \<or> enters s e code i"
    by (simp add: map_id_updateFound idsOf_def)
qed (auto simp: map_id_updateFound idsOf_def comp_def)

lemma wasListed_listed: "wasListed s code i \<Longrightarrow> listed s i"
proof -
  assume "wasListed s code i"
  then obtain r where r: "map_of (rooms s) code = Some r" and i: "i \<in> idsOf r"
    by (auto simp: wasListed_def)
  from r have "(code, r) \<in> set (rooms s)" by (rule map_of_SomeD)
  with i show "listed s i"
    by (force simp: listed_def list_ex_iff idsOf_def)
qed

lemma enters_free: "entersWhenFree s e \<Longrightarrow> enters s e code i \<Longrightarrow> \<not> listed s i"
  by (auto simp: enters_def senderFree_def)

lemma enters_one_code: "enters s e c1 i \<Longrightarrow> enters s e c2 j \<Longrightarrow> c1 = c2"
  by (auto simp: enters_def)

lemma oneRoomPerId_step:
  assumes inv: "oneRoomPerId s" and g: "entersWhenFree s e"
  shows "oneRoomPerId (step s e)"
  unfolding oneRoomPerId_def
proof (intro allI impI)
  fix c1 c2 r1 r2 i
  assume h: "map_of (rooms (step s e)) c1 = Some r1 \<and> map_of (rooms (step s e)) c2 = Some r2 \<and>
        i \<in> idsOf r1 \<and> i \<in> idsOf r2"
  have 1: "wasListed s c1 i \<or> enters s e c1 i"
    using ids_step[of s e] h by (auto simp: allRooms_def)
  have 2: "wasListed s c2 i \<or> enters s e c2 i"
    using ids_step[of s e] h by (auto simp: allRooms_def)
  show "c1 = c2"
  proof (cases "wasListed s c1 i")
    case True
    note w1 = this
    show ?thesis
    proof (cases "wasListed s c2 i")
      case True
      with w1 inv show ?thesis
        unfolding oneRoomPerId_def wasListed_def by blast
    next
      case False
      with 2 have "enters s e c2 i" by simp
      with g have "\<not> listed s i" by (rule enters_free)
      with wasListed_listed[OF w1] show ?thesis by simp
    qed
  next
    case False
    with 1 have e1: "enters s e c1 i" by simp
    with g have nl: "\<not> listed s i" by (rule enters_free)
    with wasListed_listed[of s c2 i] 2 have "enters s e c2 i" by blast
    with e1 show ?thesis by (rule enters_one_code)
  qed
qed

lemma oneRoomPerId_run:
  "oneRoomPerId s \<Longrightarrow> guarded s evs \<Longrightarrow> oneRoomPerId (run s evs)"
  by (induction evs arbitrary: s) (simp_all add: oneRoomPerId_step)

lemma distinctIds_step:
  assumes inv: "allRooms (\<lambda>code r. distinct (map id_player (players r))) s"
    and g: "entersWhenFree s e"
  shows "allRooms (\<lambda>code r. distinct (map id_player (players r))) (step s e)"
proof (rule step_allRooms[OF inv])
  fix w en c code r and pl :: player
  assume e: "e = Message w en (Parsed (JOIN_ROOM code))" and c: "map_of (conns s) w = Some c"
    and r: "map_of (rooms s) code = Some r" and d: "distinct (map id_player (players r))"
    and pl: "id_player pl = playerId c"
  have "\<not> listed s (playerId c)" using g e c by (simp add: senderFree_def)
  moreover have "playerId c \<in> idsOf r \<Longrightarrow> listed s (playerId c)"
    using r by (intro wasListed_listed[of s code]) (auto simp: wasListed_def)
  ultimately have "playerId c \<notin> set (map id_player (players r))" by (auto simp: idsOf_def)
  then show "distinct (map id_player (players (r\<lparr>players := players r @ [pl]\<rparr>)))"
    using d pl by simp
qed (simp_all add: map_id_updateFound comp_def distinct_map_filter)

lemma distinctIds_run:
  "allRooms (\<lambda>code r. distinct (map id_player (players r))) s \<Longrightarrow> guarded s evs \<Longrightarrow>
   allRooms (\<lambda>code r. distinct (map id_player (players r))) (run s evs)"
  by (induction evs arbitrary: s) (simp_all add: distinctIds_step)

text \<open>
  C7, as the code has it. After every sequence of events in which a connection sends
  \<open>CREATE_ROOM\<close> or \<open>JOIN_ROOM\<close> only while its player id is in no room's player list, a
  player id is in the player list of at most one room, and at most once in it.
\<close>

theorem one_room_per_player_when_guarded:
  "guarded initial evs \<and>
   map_of (rooms (run initial evs)) c1 = Some r1 \<and> map_of (rooms (run initial evs)) c2 = Some r2 \<and>
   p1 \<in> set (players r1) \<and> p2 \<in> set (players r2) \<and> id_player p1 = id_player p2 \<longrightarrow>
     c1 = c2 \<and> distinct (map id_player (players r1))"
proof
  assume h: "guarded initial evs \<and>
   map_of (rooms (run initial evs)) c1 = Some r1 \<and> map_of (rooms (run initial evs)) c2 = Some r2 \<and>
   p1 \<in> set (players r1) \<and> p2 \<in> set (players r2) \<and> id_player p1 = id_player p2"
  have "oneRoomPerId initial" by (simp add: oneRoomPerId_def initial_def)
  with h have "oneRoomPerId (run initial evs)" by (intro oneRoomPerId_run) simp_all
  moreover have m1: "p1 \<in> set (players r1)" and m2: "p2 \<in> set (players r2)"
    and eq: "id_player p1 = id_player p2"
    using h by blast+
  moreover have "id_player p1 \<in> idsOf r1"
    using m1 by (simp add: idsOf_def)
  moreover have "id_player p1 \<in> idsOf r2"
    unfolding eq using m2 by (simp add: idsOf_def)
  ultimately have a: "c1 = c2" using h unfolding oneRoomPerId_def by blast
  have "allRooms (\<lambda>code r. distinct (map id_player (players r))) (run initial evs)"
    using h by (intro distinctIds_run allRooms_initial) simp
  with h have b: "distinct (map id_player (players r1))" by (auto simp: allRooms_def)
  from a b show "c1 = c2 \<and> distinct (map id_player (players r1))" ..
qed

text \<open>
  C7 as stated fails: nothing stops a connection that is in a room from creating (or
  joining) another one. A client sends \<open>CREATE_ROOM\<close> twice; its id is then in the player
  lists of both rooms.
\<close>

theorem two_rooms_counterexample:
  "map (\<lambda>cr. (fst cr, map id_player (players (snd cr))))
     (rooms (run initial
        [Connection,
         Message 1 sampleEnv (Parsed CREATE_ROOM),
         Message 1 sampleEnv2 (Parsed CREATE_ROOM)])) =
   [(''ABCDEF'', [''player1'']), (''GHIJKL'', [''player1''])]"
  by code_simp

text \<open>
  \<open>twoPlayersTrace\<close> is guarded; the second player of its room is \<open>player2\<close>.
\<close>

theorem one_room_per_player_when_guarded_witness:
  "guarded initial twoPlayersTrace \<and>
   id_player (players (the (map_of (rooms (run initial twoPlayersTrace)) ''ABCDEF'')) ! 1) = ''player2'' \<and>
   distinct (map id_player (players (the (map_of (rooms (run initial twoPlayersTrace)) ''ABCDEF''))))"
proof -
  let ?s = "run initial twoPlayersTrace"
  let ?r = "the (map_of (rooms ?s) ''ABCDEF'')"
  have h1: "guarded initial twoPlayersTrace" by code_simp
  have h2: "map_of (rooms ?s) ''ABCDEF'' = Some ?r" by code_simp
  have h3: "players ?r ! 1 \<in> set (players ?r)" by code_simp
  have h4: "id_player (players ?r ! 1) = ''player2''" by code_simp
  show ?thesis
    using one_room_per_player_when_guarded[of twoPlayersTrace "''ABCDEF''" ?r "''ABCDEF''" ?r
        "players ?r ! 1" "players ?r ! 1"] h1 h2 h3 h4
    by blast
qed

section \<open>The earlier revision\<close>

text \<open>
  In the earlier revision a frame that \<open>JSON.parse\<close> rejects throws out of the message
  handler, and \<open>UPDATE_COMMANDER_DAMAGE\<close> changes no life total.
\<close>

lemma earlier_revision_malformed: "onMessageV1 w c e Unparseable s = Inl SyntaxError"
  by (simp add: onMessageV1_def)

lemma life_storeDamageV1: "life (storeDamageV1 src d p) = life p"
  by (simp add: storeDamageV1_def)

lemma map_life_updateFound:
  "(\<And>p. life (f p) = life p) \<Longrightarrow> map life (updateFound i f ps) = map life ps"
  by (induction ps) auto

lemma earlier_revision_damage_keeps_lives:
  assumes "currentRoom s c = Some (code, r)"
    and "handleMessageV1 w c e (UPDATE_COMMANDER_DAMAGE src tgt d) s = Inr s'"
  shows "map_option (\<lambda>r'. map life (players r')) (map_of (rooms s') code) = Some (map life (players r))"
proof -
  have r: "map_of (rooms s) code = Some r" using assms(1) by (simp add: currentRoom_SomeD)
  show ?thesis
    using assms r
    by (auto simp: Let_def room_after_put_log map_life_updateFound life_storeDamageV1
        split: option.splits)
qed

end
